theory Spec2Isabelle
  imports Main "HOL-Library.AList" "HOL-Library.Multiset"
begin

section \<open>Cards\<close>

text \<open>
  A card is the object \<^verbatim>\<open>{ r, s }\<close> built by \<^verbatim>\<open>makeDeck\<close>: a rank \<open>1..13\<close> and one of
  the four suit symbols of \<^verbatim>\<open>SUITS\<close>. The code compares cards in two ways: by
  reference (\<^verbatim>\<open>c !== card\<close> in \<^verbatim>\<open>applyPlay\<close> and in the rollouts) and by value
  (\<^verbatim>\<open>cardsEqual\<close>, and the inline test of \<^verbatim>\<open>commitDiscardsSelected\<close>). The field
  \<open>oid\<close> stands for the identity of the object, so that equality of records is
  reference equality and \<open>cardsEqual\<close> is the comparison of rank and suit.
\<close>

datatype suit = Clubs | Diamonds | Hearts | Spades

record card =
  r :: int
  s :: suit
  oid :: nat

definition cardValue15 :: "int \<Rightarrow> int" where
  "cardValue15 x = (if x > 10 then 10 else x)"

definition cardsEqual :: "card \<Rightarrow> card \<Rightarrow> bool" where
  "cardsEqual a b = (r a = r b \<and> s a = s b)"

section \<open>Combinatorics and hand scoring\<close>

text \<open>
  \<^verbatim>\<open>1 << n\<close> is a 32-bit shift: the count is taken modulo 32 and the result is a
  signed 32-bit integer. \<^verbatim>\<open>mask & (1 << i)\<close> is non-zero exactly when bit
  \<open>i mod 32\<close> of the mask is set (the loop keeps the mask below \<open>2^31\<close>).
\<close>

definition shl1 :: "nat \<Rightarrow> int" where
  "shl1 n = (if n mod 32 = 31 then - (2 ^ 31) else 2 ^ (n mod 32))"

definition maskSubset :: "'a list \<Rightarrow> nat \<Rightarrow> 'a list" where
  "maskSubset arr msk = map (\<lambda>i. arr ! i) (filter (\<lambda>i. bit msk (i mod 32)) [0..<length arr])"

definition combos :: "'a list \<Rightarrow> 'a list list" where
  "combos arr = map (maskSubset arr) [1..<nat (shl1 (length arr))]"

definition count15 :: "card list \<Rightarrow> int" where
  "count15 cards =
     fold (\<lambda>subset pts. if fold (\<lambda>c a. a + cardValue15 (r c)) subset 0 = 15 then pts + 2 else pts)
       (combos cards) 0"

text \<open>
  The objects \<^verbatim>\<open>ranks\<close> and \<^verbatim>\<open>byRank\<close> count the cards of each rank. They are
  association lists here; \<open>lookup0\<close> is the read \<^verbatim>\<open>ranks[c.r] || 0\<close>.
\<close>

definition lookup0 :: "(int \<times> int) list \<Rightarrow> int \<Rightarrow> int" where
  "lookup0 m k = (case map_of m k of None \<Rightarrow> 0 | Some n \<Rightarrow> n)"

definition tally :: "card list \<Rightarrow> (int \<times> int) list" where
  "tally cards = fold (\<lambda>c m. AList.update (r c) (lookup0 m (r c) + 1) m) cards []"

definition countPairs :: "card list \<Rightarrow> int" where
  "countPairs cards =
     fold (\<lambda>k pts. let n = lookup0 (tally cards) k in
                    if n \<ge> 2 then pts + (n * (n - 1)) div 2 * 2 else pts)
       (map fst (tally cards)) 0"

text \<open>The inner \<^verbatim>\<open>while\<close> of \<^verbatim>\<open>countRuns\<close>: \<open>j\<close> moves right while the next rank follows.\<close>

function advance :: "int list \<Rightarrow> nat \<Rightarrow> nat" where
  "advance unique j =
     (if j + 1 < length unique \<and> unique ! (j + 1) = unique ! j + 1
      then advance unique (j + 1) else j)"
  by pat_completeness auto
termination
  by (relation "measure (\<lambda>(unique, j). length unique - j)") auto

declare advance.simps [simp del]

lemma advance_ge: "i \<le> advance unique i"
proof (induction unique i rule: advance.induct)
  case (1 unique j)
  then show ?case
    by (subst advance.simps) (auto simp: le_Suc_eq)
qed

function runsLoop :: "(int \<times> int) list \<Rightarrow> int list \<Rightarrow> nat \<Rightarrow> nat \<Rightarrow> int \<Rightarrow> int" where
  "runsLoop byRank unique i bestLen tot =
     (if i < length unique then
        (let j = advance unique i;
             runLen = j - i + 1 in
         if runLen \<ge> 3 then
           (let mult = fold (\<lambda>x m. m * lookup0 byRank x) (take (j + 1 - i) (drop i unique)) 1 in
            if runLen > bestLen then runsLoop byRank unique (j + 1) runLen (int runLen * mult)
            else if runLen = bestLen then runsLoop byRank unique (j + 1) bestLen (tot + int runLen * mult)
            else runsLoop byRank unique (j + 1) bestLen tot)
         else runsLoop byRank unique (j + 1) bestLen tot)
      else tot)"
  by pat_completeness auto
termination
proof (relation "measure (\<lambda>(byRank, unique, i, bestLen, tot). length unique - i)")
  show "wf (measure (\<lambda>(byRank, unique, i, bestLen, tot). length unique - i))"
    by simp
qed (use advance_ge in \<open>auto simp: less_Suc_eq_le intro!: diff_less_mono2\<close>)

declare runsLoop.simps [simp del]

definition countRuns :: "card list \<Rightarrow> int" where
  "countRuns cards =
     (let byRank = tally cards;
          unique = sort (map fst byRank)
      in runsLoop byRank unique 0 0 0)"

definition suit0 :: "suit list \<Rightarrow> suit option" where
  "suit0 suits = (case suits of [] \<Rightarrow> None | x # _ \<Rightarrow> Some x)"

definition flushPoints :: "card list \<Rightarrow> card option \<Rightarrow> bool \<Rightarrow> int" where
  "flushPoints hand starter isCrib =
     (let suits = map s hand;
          allSame = list_all (\<lambda>x. Some x = suit0 suits) suits
      in if \<not> allSame then 0
         else if (case starter of None \<Rightarrow> False | Some st \<Rightarrow> Some (s st) = suit0 suits) then 5
         else if isCrib then 0 else 4)"

definition knobsPoints :: "card list \<Rightarrow> card option \<Rightarrow> int" where
  "knobsPoints hand starter =
     (case starter of None \<Rightarrow> 0
      | Some st \<Rightarrow> if list_ex (\<lambda>c. r c = 11 \<and> s c = s st) hand then 1 else 0)"

definition HOUSE_798 :: bool where
  "HOUSE_798 = True"

definition hull798Bonus :: "card list \<Rightarrow> int" where
  "hull798Bonus allFive =
     (if \<not> HOUSE_798 then 0
      else (let cnt = fold (\<lambda>c (c7, c8, c9).
                        if r c = 7 then (c7 + 1, c8, c9)
                        else if r c = 8 then (c7, c8 + 1, c9)
                        else if r c = 9 then (c7, c8, c9 + 1)
                        else (c7, c8, c9)) allFive (0, 0, 0)
            in case cnt of (c7, c8, c9) \<Rightarrow> 3 * (c7 * c8 * c9)))"

text \<open>
  \<^verbatim>\<open>handPoints\<close> reads \<^verbatim>\<open>c.r\<close> of every card of \<^verbatim>\<open>hand4.concat([starter])\<close>, so a
  \<^verbatim>\<open>null\<close> starter raises a TypeError.
\<close>

datatype js_error = TypeError

definition handPoints :: "card list \<Rightarrow> card option \<Rightarrow> bool \<Rightarrow> js_error + int" where
  "handPoints hand4 starter isCrib =
     (case starter of
        None \<Rightarrow> Inl TypeError
      | Some st \<Rightarrow>
          (let all = hand4 @ [st]
           in Inr (count15 all + countPairs all + countRuns all
                   + flushPoints hand4 starter isCrib + knobsPoints hand4 starter
                   + hull798Bonus all)))"

section \<open>Pegging\<close>

text \<open>
  The two players are the strings \<^verbatim>\<open>"P"\<close> and \<^verbatim>\<open>"AI"\<close>; no other value is ever
  stored in \<^verbatim>\<open>dealer\<close> or \<^verbatim>\<open>next\<close> or passed as \<^verbatim>\<open>who\<close>.
\<close>

datatype player = P | AI

text \<open>
  The pegging state object built by \<^verbatim>\<open>cutStarter\<close>. The field \<^verbatim>\<open>next\<close> is \<open>nxt\<close>
  here. \<^verbatim>\<open>applyPlay\<close> adds the fields \<^verbatim>\<open>points\<close> and \<^verbatim>\<open>thirtyOne\<close> to the object
  it returns; they are absent (\<open>None\<close>) before the first play.
\<close>

record peg =
  stack :: "card list"
  total :: int
  pHand :: "card list"
  aiHand :: "card list"
  seen :: "card list"
  starter :: card
  nxt :: player
  pPassed :: bool
  aiPassed :: bool
  points :: "int option"
  thirtyOne :: "bool option"

definition legalPlays :: "card list \<Rightarrow> int \<Rightarrow> card list" where
  "legalPlays hand tot = filter (\<lambda>c. tot + cardValue15 (r c) \<le> 31) hand"

text \<open>The first \<^verbatim>\<open>while\<close> of \<^verbatim>\<open>isPairRunPoints\<close>: equal ranks counted from the end.\<close>

function sameLoop :: "card list \<Rightarrow> nat \<Rightarrow> nat \<Rightarrow> nat" where
  "sameLoop seq k same =
     (if 1 \<le> k \<and> r (seq ! (k - 1)) = r (seq ! k) then sameLoop seq (k - 1) (same + 1) else same)"
  by pat_completeness auto
termination
  by (relation "measure (\<lambda>(seq, k, same). k)") auto

declare sameLoop.simps [simp del]

text \<open>The test of one tail: its sorted ranks go up by one at every step.\<close>

fun isRun :: "int list \<Rightarrow> bool" where
  "isRun (x # y # ys) = (y = x + 1 \<and> isRun (y # ys))"
| "isRun _ = True"

text \<open>The \<^verbatim>\<open>for\<close> over the tail lengths \<open>l\<close>, from the longest down to 3.\<close>

fun tailRunLoop :: "card list \<Rightarrow> nat \<Rightarrow> int" where
  "tailRunLoop seq 0 = 0"
| "tailRunLoop seq (Suc n) =
     (if Suc n \<ge> 3 then
        (if isRun (sort (map r (drop (length seq - Suc n) seq))) then int (Suc n)
         else tailRunLoop seq n)
      else 0)"

definition isPairRunPoints :: "card list \<Rightarrow> card \<Rightarrow> int" where
  "isPairRunPoints stk nextCard =
     (let seq = stk @ [nextCard];
          same = sameLoop seq (length seq - 1) 1;
          pts = (if same = 2 then 2 else if same = 3 then 6 else if same = 4 then 12 else 0)
      in pts + tailRunLoop seq (min 7 (length seq)))"

definition applyPlay :: "peg \<Rightarrow> card \<Rightarrow> player \<Rightarrow> peg" where
  "applyPlay state crd who =
     (let newTotal = total state + cardValue15 (r crd);
          points15or31 = (if newTotal = 15 then 2 else 0) + (if newTotal = 31 then 2 else 0);
          pairRun = isPairRunPoints (stack state) crd
      in state\<lparr>
           stack := stack state @ [crd],
           total := newTotal,
           pHand := (if who = P then filter (\<lambda>c. c \<noteq> crd) (pHand state) else pHand state),
           aiHand := (if who = AI then filter (\<lambda>c. c \<noteq> crd) (aiHand state) else aiHand state),
           nxt := (if who = P then AI else P),
           pPassed := False,
           aiPassed := False,
           points := Some (points15or31 + pairRun),
           thirtyOne := Some (newTotal = 31)\<rparr>)"

section \<open>Monte Carlo pegging rollout\<close>

text \<open>
  One pass of the \<^verbatim>\<open>for (let s=0; s<sims; s++)\<close> body of \<^verbatim>\<open>rollout\<close> inside
  \<^verbatim>\<open>aiPeggingMove\<close>. The shuffled pool \<^verbatim>\<open>d = shuffle(maskedUnseen, rng)\<close> is a
  parameter; the result is what that pass adds to \<^verbatim>\<open>totalScore\<close>.
  \<open>pegPts\<close> is the expression
  \<^verbatim>\<open>(t2 === 15 ? 2 : 0) + (t2 === 31 ? 2 : 0) + isPairRunPoints(stack, c)\<close>
  that the rollout writes out at each of its three uses.
\<close>

definition pegPts :: "int \<Rightarrow> card list \<Rightarrow> card \<Rightarrow> int" where
  "pegPts t2 stk c = (if t2 = 15 then 2 else 0) + (if t2 = 31 then 2 else 0) + isPairRunPoints stk c"

text \<open>The simulated opponent: the first legal card of maximal immediate points.\<close>

definition pChoose :: "int \<Rightarrow> card list \<Rightarrow> card list \<Rightarrow> card option \<times> int" where
  "pChoose tot stk pLegal =
     fold (\<lambda>c (best, bestPts).
             let t2 = tot + cardValue15 (r c);
                 pts = pegPts t2 stk c
             in if pts > bestPts then (Some c, pts) else (best, bestPts))
       pLegal (None, - 1)"

text \<open>The simulated AI: maximal immediate points, then the higher resulting total.\<close>

definition aiChoose :: "int \<Rightarrow> card list \<Rightarrow> card list \<Rightarrow> card option \<times> int \<times> int" where
  "aiChoose tot stk aiLegal =
     fold (\<lambda>c (best, bestPts, bestTotal).
             let t2 = tot + cardValue15 (r c);
                 pts = pegPts t2 stk c
             in if pts > bestPts \<or> (pts = bestPts \<and> t2 > bestTotal) then (Some c, pts, t2)
                else (best, bestPts, bestTotal))
       aiLegal (None, - 1, 0)"

lemma pChoose_fold_mem:
  "fold (\<lambda>c (best, bestPts).
             let t2 = tot + cardValue15 (r c);
                 pts = pegPts t2 stk c
             in if pts > bestPts then (Some c, pts) else (best, bestPts)) xs (b0, p0) = (Some c, q)
   \<Longrightarrow> c \<in> set xs \<or> b0 = Some c"
  by (induction xs arbitrary: b0 p0) (auto simp: Let_def split: if_splits)

lemma pChoose_mem: "pChoose tot stk xs = (Some c, q) \<Longrightarrow> c \<in> set xs"
  unfolding pChoose_def by (drule pChoose_fold_mem) simp

lemma aiChoose_fold_mem:
  "fold (\<lambda>c (best, bestPts, bestTotal).
             let t2 = tot + cardValue15 (r c);
                 pts = pegPts t2 stk c
             in if pts > bestPts \<or> (pts = bestPts \<and> t2 > bestTotal) then (Some c, pts, t2)
                else (best, bestPts, bestTotal)) xs (b0, p0, t0) = (Some c, q, u)
   \<Longrightarrow> c \<in> set xs \<or> b0 = Some c"
  by (induction xs arbitrary: b0 p0 t0) (auto simp: Let_def split: if_splits)

lemma aiChoose_mem: "aiChoose tot stk xs = (Some c, q, u) \<Longrightarrow> c \<in> set xs"
  unfolding aiChoose_def by (drule aiChoose_fold_mem) simp

lemma length_filter_neq_less: "c \<in> set (filter Q xs) \<Longrightarrow> length (filter (\<lambda>x. x \<noteq> c) xs) < length xs"
  by (rule length_filter_less [of c]) auto

text \<open>
  The \<^verbatim>\<open>while (true)\<close> loop. \<^verbatim>\<open>best\<close> is read as \<^verbatim>\<open>playC.r\<close> right after the
  choice, so a \<^verbatim>\<open>null\<close> choice would raise a TypeError.
\<close>

function rolloutLoop ::
  "player \<Rightarrow> int \<Rightarrow> card list \<Rightarrow> card list \<Rightarrow> card list \<Rightarrow> int \<Rightarrow> bool \<Rightarrow> bool \<Rightarrow> player
   \<Rightarrow> js_error + int" where
  "rolloutLoop turn tot stk aiRem pOptions aiPts pPass aiPass lastMover =
     (if turn = P then
        (let pLegal = filter (\<lambda>c. tot + cardValue15 (r c) \<le> 31) pOptions in
         if length pLegal = 0 then
           (if aiPass then Inr (if lastMover = AI then aiPts + 1 else aiPts)
            else rolloutLoop AI tot stk aiRem pOptions aiPts True aiPass lastMover)
         else
           (case pChoose tot stk pLegal of
              (None, bestPts) \<Rightarrow> Inl TypeError
            | (Some playC, bestPts) \<Rightarrow>
                (if tot + cardValue15 (r playC) = 31 then Inr (aiPts - bestPts)
                 else rolloutLoop AI (tot + cardValue15 (r playC)) (stk @ [playC]) aiRem
                        (filter (\<lambda>c. c \<noteq> playC) pOptions) (aiPts - bestPts) False aiPass P)))
      else
        (let aiLegal = filter (\<lambda>c. tot + cardValue15 (r c) \<le> 31) aiRem in
         if length aiLegal = 0 then
           (if pPass then Inr (if lastMover = AI then aiPts + 1 else aiPts)
            else rolloutLoop P tot stk aiRem pOptions aiPts pPass True lastMover)
         else
           (case aiChoose tot stk aiLegal of
              (None, bestPts, bestTotal) \<Rightarrow> Inl TypeError
            | (Some play2, bestPts, bestTotal) \<Rightarrow>
                (if tot + cardValue15 (r play2) = 31 then Inr (aiPts + bestPts)
                 else rolloutLoop P (tot + cardValue15 (r play2)) (stk @ [play2])
                        (filter (\<lambda>c. c \<noteq> play2) aiRem) pOptions (aiPts + bestPts) pPass False AI))))"
  by pat_completeness auto
termination
proof (relation "measure (\<lambda>(turn, tot, stk, aiRem, pOptions, aiPts, pPass, aiPass, lastMover).
         2 * (length pOptions + length aiRem)
         + (if turn = P then (if aiPass then 0 else 1) else (if pPass then 0 else 1)))",
       goal_cases)
  case 1
  show ?case by simp
next
  case (2 turn tot stk aiRem pOptions aiPts pPass aiPass lastMover pLegal)
  then show ?case by simp
next
  case (3 turn tot stk aiRem pOptions aiPts pPass aiPass lastMover pLegal x1 x2 playC)
  then have "pChoose tot stk pLegal = (Some playC, x2)"
    by simp
  then have "playC \<in> set pLegal"
    by (rule pChoose_mem)
  with 3 have "playC \<in> set (filter (\<lambda>c. tot + cardValue15 (r c) \<le> 31) pOptions)"
    by simp
  then have "length (filter (\<lambda>c. c \<noteq> playC) pOptions) < length pOptions"
    by (rule length_filter_neq_less)
  then show ?case by simp
next
  case (4 turn tot stk aiRem pOptions aiPts pPass aiPass lastMover aiLegal)
  then show ?case by simp
next
  case (5 turn tot stk aiRem pOptions aiPts pPass aiPass lastMover aiLegal x1 x2 play2 x3 x4)
  then have "aiChoose tot stk aiLegal = (Some play2, x3, x4)"
    by simp
  then have "play2 \<in> set aiLegal"
    by (rule aiChoose_mem)
  with 5 have "play2 \<in> set (filter (\<lambda>c. tot + cardValue15 (r c) \<le> 31) aiRem)"
    by simp
  then have "length (filter (\<lambda>c. c \<noteq> play2) aiRem) < length aiRem"
    by (rule length_filter_neq_less)
  then show ?case by simp
qed

declare rolloutLoop.simps [simp del]

definition rolloutSim :: "peg \<Rightarrow> card \<Rightarrow> card list \<Rightarrow> js_error + int" where
  "rolloutSim state play d =
     (let oppCount = length (pHand state);
          oppSample = take oppCount d;
          tot = total state + cardValue15 (r play);
          stk = stack state @ [play];
          aiRem = filter (\<lambda>c. c \<noteq> play) (aiHand state);
          aiPts = (if tot = 15 then 2 else 0) + (if tot = 31 then 2 else 0)
                  + isPairRunPoints (stack state) play
      in if tot = 31 then Inr (aiPts + 1)
         else rolloutLoop P tot stk aiRem oppSample aiPts False False AI)"

section \<open>The game hook\<close>

text \<open>
  \<^verbatim>\<open>useCribbageGame\<close> keeps the game in React state variables. A function of the hook
  is a closure of one render: a state variable it reads by name (\<^verbatim>\<open>gameOver\<close>,
  \<^verbatim>\<open>pHand\<close>, \<^verbatim>\<open>dealer\<close>, ...) has the value of that render, whatever has been set
  since. A setter called with a function (\<^verbatim>\<open>setScores(s => ...)\<close>,
  \<^verbatim>\<open>setCrib(c => ...)\<close>) receives the pending value, with the updates queued so far.
  So every function of the hook takes the render's state \<open>snap\<close> and the pending state
  \<open>cur\<close>, and returns the new pending state. In a handler called first after a
  render, both are the same.

  The record \<open>game\<close> holds the state variables of the hook that the functions below
  read or write. The hook's \<^verbatim>\<open>pHand\<close>, \<^verbatim>\<open>aiHand\<close> and \<^verbatim>\<open>starter\<close> are \<open>gPHand\<close>,
  \<open>gAIHand\<close> and \<open>gStarter\<close> here (the pegging state has fields of the same names);
  \<^verbatim>\<open>starter\<close> is \<^verbatim>\<open>null\<close> until the cut.
\<close>

datatype phase = Deal | Discard | Cut | Pegging | Show

record game =
  dealer :: player
  gPHand :: "card list"
  gAIHand :: "card list"
  crib :: "card list"
  gStarter :: "card option"
  phase :: phase
  scores :: "player \<Rightarrow> int"
  prevScores :: "player \<Rightarrow> int"
  gameOver :: bool
  winner :: "player option"

definition addScore :: "game \<Rightarrow> player \<Rightarrow> int \<Rightarrow> game \<Rightarrow> game" where
  "addScore snap who delta cur =
     (if delta \<le> 0 \<or> gameOver snap then cur
      else
        (let sc = scores cur;
             nextVal = min 120 (sc who + delta);
             cur1 = cur\<lparr>prevScores := sc\<rparr>;
             cur2 = (if \<not> gameOver snap \<and> nextVal \<ge> 120
                     then cur1\<lparr>gameOver := True, winner := Some who\<rparr> else cur1)
         in cur2\<lparr>scores := sc(who := nextVal)\<rparr>))"

text \<open>
  \<^verbatim>\<open>commitDiscardsSelected\<close>: \<open>None\<close> is a \<^verbatim>\<open>null\<close> or \<^verbatim>\<open>undefined\<close> selection.
\<close>

definition commitDiscardsSelected :: "game \<Rightarrow> card list option \<Rightarrow> game \<Rightarrow> game" where
  "commitDiscardsSelected snap selectedTwo cur =
     (case selectedTwo of
        None \<Rightarrow> cur
      | Some sel \<Rightarrow>
          if length sel \<noteq> 2 then cur
          else cur\<lparr>crib := crib cur @ sel,
                   gPHand := filter (\<lambda>c. \<not> list_ex (\<lambda>x. r x = r c \<and> s x = s c) sel) (gPHand snap),
                   phase := Cut\<rparr>)"

text \<open>
  \<^verbatim>\<open>endPeggingAndScoreHands\<close>, without its log lines and without the timer that
  starts the next deal two seconds later. The three hands are counted before the first
  of the three \<^verbatim>\<open>addScore\<close> calls, so a TypeError of \<^verbatim>\<open>handPoints\<close> ends the handler
  before any of them.
\<close>

definition endPeggingAndScoreHands :: "game \<Rightarrow> peg \<Rightarrow> game \<Rightarrow> js_error + game" where
  "endPeggingAndScoreHands snap finalPeg cur =
     (let cur1 = (if total finalPeg > 0 \<and> total finalPeg < 31
                     \<and> (pPassed finalPeg \<or> aiPassed finalPeg)
                  then addScore snap (if pPassed finalPeg then AI else P) 1 cur else cur);
          cur2 = cur1\<lparr>phase := Show\<rparr>;
          pone = (if dealer snap = AI then P else AI);
          poneHand = (if pone = P then gPHand snap else gAIHand snap);
          dealerHand = (if dealer snap = P then gPHand snap else gAIHand snap);
          st = gStarter snap
      in case handPoints poneHand st False of
           Inl e \<Rightarrow> Inl e
         | Inr ponePts \<Rightarrow>
             (case handPoints dealerHand st False of
                Inl e \<Rightarrow> Inl e
              | Inr dealerPts \<Rightarrow>
                  (case handPoints (crib snap) st True of
                     Inl e \<Rightarrow> Inl e
                   | Inr cribPts \<Rightarrow>
                       Inr (addScore snap (dealer snap) cribPts
                             (addScore snap (dealer snap) dealerPts
                               (addScore snap pone ponePts cur2))))))"

section \<open>Points of a pegging play, as the specification words them\<close>

text \<open>
  The number of equal ranks at the end of a sequence of ranks, the last one included.
\<close>

definition specTrailingEqual :: "int list \<Rightarrow> nat" where
  "specTrailingEqual rs = length (takeWhile (\<lambda>x. x = last rs) (rev rs))"

text \<open>Pair points: 2, 6 or 12 for 2, 3 or 4 equal ranks at the tail.\<close>

definition specPairPoints :: "int list \<Rightarrow> int" where
  "specPairPoints rs =
     (if specTrailingEqual rs = 2 then 2
      else if specTrailingEqual rs = 3 then 6
      else if specTrailingEqual rs = 4 then 12
      else 0)"

text \<open>Ranks that are consecutive in some order: some rearrangement goes up by one.\<close>

definition specRunInSomeOrder :: "int list \<Rightarrow> bool" where
  "specRunInSomeOrder rs =
     (\<exists>ys. mset ys = mset rs \<and> (\<forall>i. Suc i < length ys \<longrightarrow> ys ! Suc i = ys ! i + 1))"

text \<open>
  Run points: the length of the longest tail of length 3 to 7 whose ranks are
  consecutive in some order; nothing when there is none.
\<close>

definition specTailRunPoints :: "int list \<Rightarrow> int" where
  "specTailRunPoints rs =
     (if {l. 3 \<le> l \<and> l \<le> 7 \<and> l \<le> length rs \<and> specRunInSomeOrder (drop (length rs - l) rs)} = {}
      then 0
      else int (Max {l. 3 \<le> l \<and> l \<le> 7 \<and> l \<le> length rs
                        \<and> specRunInSomeOrder (drop (length rs - l) rs)}))"

definition specPlayPoints :: "card list \<Rightarrow> int \<Rightarrow> card \<Rightarrow> int" where
  "specPlayPoints stk tot c =
     (if tot + cardValue15 (r c) = 15 then 2 else 0)
     + (if tot + cardValue15 (r c) = 31 then 2 else 0)
     + specPairPoints (map r (stk @ [c]))
     + specTailRunPoints (map r (stk @ [c]))"

section \<open>Example cards and states\<close>

definition mkCard :: "int \<Rightarrow> suit \<Rightarrow> nat \<Rightarrow> card" where
  "mkCard x y z = \<lparr>r = x, s = y, oid = z\<rparr>"

text \<open>A pegging state at count 25: the player holds a King and a Three, the AI a Six.\<close>

definition pegAt25 :: peg where
  "pegAt25 =
     \<lparr>stack = [mkCard 10 Hearts 0, mkCard 8 Clubs 1, mkCard 7 Diamonds 2], total = 25,
      pHand = [mkCard 13 Spades 3, mkCard 3 Clubs 4], aiHand = [mkCard 6 Hearts 5],
      seen = [mkCard 2 Clubs 6], starter = mkCard 2 Clubs 6, nxt = P,
      pPassed = False, aiPassed = True, points = None, thirtyOne = None\<rparr>"

text \<open>
  The player's turn to discard: six cards in hand, the AI's two discards in the crib.
\<close>

definition gameAtDiscard :: game where
  "gameAtDiscard =
     \<lparr>dealer = AI,
      gPHand = [mkCard 1 Clubs 0, mkCard 4 Hearts 1, mkCard 7 Spades 2,
                mkCard 9 Diamonds 3, mkCard 11 Clubs 4, mkCard 13 Hearts 5],
      gAIHand = [mkCard 2 Clubs 6, mkCard 5 Hearts 7, mkCard 8 Spades 8, mkCard 10 Diamonds 9],
      crib = [mkCard 3 Clubs 10, mkCard 6 Hearts 11],
      gStarter = None, phase = Discard,
      scores = (\<lambda>_. 0), prevScores = (\<lambda>_. 0), gameOver = False, winner = None\<rparr>"

text \<open>
  The end of a pegging round with the player at 118 and the AI, the dealer, at 116. With
  the King of diamonds as starter the player's hand counts 2 (a pair), the AI's hand 6
  (two fifteens and a pair) and the crib 0.
\<close>

definition gameNearEnd :: game where
  "gameNearEnd =
     \<lparr>dealer = AI,
      gPHand = [mkCard 2 Clubs 0, mkCard 2 Diamonds 1, mkCard 9 Hearts 2, mkCard 12 Spades 3],
      gAIHand = [mkCard 7 Clubs 4, mkCard 8 Diamonds 5, mkCard 8 Hearts 6, mkCard 1 Spades 7],
      crib = [mkCard 4 Clubs 8, mkCard 6 Diamonds 9, mkCard 10 Hearts 10, mkCard 12 Clubs 11],
      gStarter = Some (mkCard 13 Diamonds 12), phase = Pegging,
      scores = (\<lambda>_. 0)(P := 118, AI := 116), prevScores = (\<lambda>_. 0)(P := 118, AI := 115),
      gameOver = False, winner = None\<rparr>"

definition pegDone :: peg where
  "pegDone =
     \<lparr>stack = [mkCard 12 Spades 3, mkCard 1 Spades 7], total = 11,
      pHand = [], aiHand = [], seen = [], starter = mkCard 13 Diamonds 12, nxt = P,
      pPassed = False, aiPassed = False, points = Some 0, thirtyOne = Some False\<rparr>"

text \<open>
  The AI to play at count 11 with a King and a Seven, then at count 21 with a King.
\<close>

definition pegAt11 :: peg where
  "pegAt11 =
     \<lparr>stack = [mkCard 6 Clubs 0, mkCard 5 Diamonds 1], total = 11,
      pHand = [mkCard 9 Spades 2], aiHand = [mkCard 13 Clubs 3, mkCard 7 Hearts 4],
      seen = [mkCard 2 Hearts 5], starter = mkCard 2 Hearts 5, nxt = AI,
      pPassed = False, aiPassed = False, points = None, thirtyOne = None\<rparr>"

definition pegAt21 :: peg where
  "pegAt21 =
     \<lparr>stack = [mkCard 6 Clubs 0, mkCard 5 Diamonds 1, mkCard 12 Hearts 6], total = 21,
      pHand = [mkCard 9 Spades 2], aiHand = [mkCard 13 Clubs 3, mkCard 7 Hearts 4],
      seen = [mkCard 2 Hearts 5], starter = mkCard 2 Hearts 5, nxt = AI,
      pPassed = False, aiPassed = False, points = None, thirtyOne = None\<rparr>"

lemmas example_defs = mkCard_def pegAt25_def

section \<open>Counting ranks: what the tally holds\<close>

lemma lookup0_update:
  "lookup0 (AList.update k v m) k' = (if k' = k then v else lookup0 m k')"
  by (simp add: lookup0_def update_conv')

lemma tally_fold_lookup0:
  "lookup0 (fold (\<lambda>c m. AList.update (r c) (lookup0 m (r c) + 1) m) cards m0) k
     = lookup0 m0 k + int (count_list (map r cards) k)"
  by (induction cards arbitrary: m0) (auto simp: lookup0_update)

lemma tally_fold_keys:
  "set (map fst (fold (\<lambda>c m. AList.update (r c) (lookup0 m (r c) + 1) m) cards m0))
     = set (map fst m0) \<union> r ` set cards"
  by (induction cards arbitrary: m0) (auto simp: dom_update)

lemma tally_fold_distinct:
  "distinct (map fst m0)
   \<Longrightarrow> distinct (map fst (fold (\<lambda>c m. AList.update (r c) (lookup0 m (r c) + 1) m) cards m0))"
  by (induction cards arbitrary: m0) (auto simp: distinct_update)

lemma lookup0_tally: "lookup0 (tally cards) k = int (count (mset (map r cards)) k)"
proof -
  have "lookup0 (tally cards) k = lookup0 [] k + int (count_list (map r cards) k)"
    unfolding tally_def by (rule tally_fold_lookup0)
  moreover have "lookup0 [] k = 0"
    by (simp add: lookup0_def)
  moreover have "count (mset (map r cards)) k = count_list (map r cards) k"
    by (simp only: count_mset)
  ultimately show ?thesis
    by simp
qed

lemma keys_tally: "set (map fst (tally cards)) = set_mset (mset (map r cards))"
  using tally_fold_keys [of cards "[]"] by (simp add: tally_def)

lemma distinct_tally: "distinct (map fst (tally cards))"
  using tally_fold_distinct [of "[]" cards] by (simp add: tally_def)

lemma runsLoop_lookup0_cong:
  assumes "\<And>k. lookup0 m k = lookup0 m' k"
  shows "runsLoop m unique i bestLen tot = runsLoop m' unique i bestLen tot"
  using assms
proof (induction m unique i bestLen tot rule: runsLoop.induct)
  case (1 byRank unique i bestLen tot)
  have same: "lookup0 byRank = lookup0 m'"
    using "1.prems" by (intro ext)
  show ?case
    using "1.IH" "1.prems" same
    by (subst (2) runsLoop.simps, subst runsLoop.simps) (auto simp: Let_def)
qed

lemma sort_keys_tally:
  "sort (map fst (tally cards)) = sorted_list_of_set (set_mset (mset (map r cards)))"
proof -
  have "sorted_list_of_set (set (map fst (tally cards))) = sort (remdups (map fst (tally cards)))"
    by (rule sorted_list_of_set_sort_remdups)
  also have "remdups (map fst (tally cards)) = map fst (tally cards)"
    using distinct_tally by (rule distinct_remdups_id)
  finally show ?thesis
    by (simp only: keys_tally)
qed

lemma pairs_fold_sum:
  "fold (\<lambda>k pts. let n = f k in if n \<ge> 2 then pts + g n else pts) ks (a :: int)
     = a + (\<Sum>k\<leftarrow>ks. if f k \<ge> (2 :: int) then g (f k) else 0)"
  by (induction ks arbitrary: a) (auto simp: Let_def)

lemma countPairs_sum:
  "countPairs cards =
     (\<Sum>k\<in>set_mset (mset (map r cards)).
        let n = int (count (mset (map r cards)) k) in if n \<ge> 2 then n * (n - 1) div 2 * 2 else 0)"
proof -
  have "countPairs cards =
      (\<Sum>k\<leftarrow>map fst (tally cards).
         if lookup0 (tally cards) k \<ge> 2
         then lookup0 (tally cards) k * (lookup0 (tally cards) k - 1) div 2 * 2 else 0)"
    unfolding countPairs_def
    using pairs_fold_sum [of "lookup0 (tally cards)" "\<lambda>n. n * (n - 1) div 2 * 2" "map fst (tally cards)" 0]
    by simp
  also have "\<dots> = (\<Sum>k\<in>set (map fst (tally cards)).
         if lookup0 (tally cards) k \<ge> 2
         then lookup0 (tally cards) k * (lookup0 (tally cards) k - 1) div 2 * 2 else 0)"
    using distinct_tally by (rule sum_list_distinct_conv_sum_set)
  finally show ?thesis
    by (simp only: keys_tally lookup0_tally Let_def)
qed

text \<open>
  Claim C2 says that the five cards of ranks 3, 4, 5, 5, 6 score 6 run points (two runs
  of length 3). The code does not give 6 run points for them.
\<close>

theorem countRuns_34556_counterexample:
  "countRuns [mkCard 3 Clubs 0, mkCard 4 Diamonds 1, mkCard 5 Hearts 2, mkCard 5 Spades 3,
              mkCard 6 Clubs 4] \<noteq> 6"
  by code_simp

text \<open>
  Claim C2 as amended: five cards whose ranks are 3, 4, 5, 5, 6, in any order and of any
  suits, score exactly 8 run points (the run 3-4-5-6 of length 4, counted twice, once
  per 5) and 2 pair points; neither a single run of 5 nor runs of length 3 are scored.
\<close>

theorem countRuns_countPairs_34556:
  assumes "mset (map r cards) = {#3, 4, 5, 5, 6#}"
  shows "countRuns cards = 8 \<and> countPairs cards = 2"
proof -
  have keys: "set_mset (mset (map r cards)) = {3, 4, 5, 6}"
    by (simp only: assms) auto
  have "sorted_list_of_set {3, 4, 5, 6 :: int} = [3, 4, 5, 6]"
    by (simp add: sorted_list_of_set.sorted_key_list_of_set_unique)
  with keys have unique: "sort (map fst (tally cards)) = [3, 4, 5, 6]"
    by (simp only: sort_keys_tally)
  have look: "lookup0 (tally cards) k = lookup0 [(3, 1), (4, 1), (5, 2), (6, 1)] k" for k
  proof -
    have "lookup0 [(3, 1), (4, 1), (5, 2), (6, 1)] k = int (count {#3, 4, 5, 5, 6#} k)"
      by (simp add: lookup0_def)
    then show ?thesis
      by (simp only: lookup0_tally assms)
  qed
  have "runsLoop (tally cards) [3, 4, 5, 6] 0 0 0
          = runsLoop [(3, 1), (4, 1), (5, 2), (6, 1)] [3, 4, 5, 6] 0 0 0"
    using look by (rule runsLoop_lookup0_cong)
  also have "\<dots> = 8"
    by code_simp
  finally have runs: "countRuns cards = 8"
    by (simp add: countRuns_def Let_def unique)
  have pairs: "countPairs cards = 2"
    unfolding countPairs_sum assms by (simp add: Let_def)
  from runs pairs show ?thesis
    by simp
qed

theorem countRuns_countPairs_34556_witness:
  "mset (map r [mkCard 5 Hearts 2, mkCard 3 Clubs 0, mkCard 6 Clubs 4, mkCard 4 Diamonds 1,
                mkCard 5 Spades 3]) = {#3, 4, 5, 5, 6#}
   \<and> countRuns [mkCard 5 Hearts 2, mkCard 3 Clubs 0, mkCard 6 Clubs 4, mkCard 4 Diamonds 1,
                mkCard 5 Spades 3] = 8
   \<and> countPairs [mkCard 5 Hearts 2, mkCard 3 Clubs 0, mkCard 6 Clubs 4, mkCard 4 Diamonds 1,
                 mkCard 5 Spades 3] = 2"
proof -
  have h: "mset (map r [mkCard 5 Hearts 2, mkCard 3 Clubs 0, mkCard 6 Clubs 4,
                        mkCard 4 Diamonds 1, mkCard 5 Spades 3]) = {#3, 4, 5, 5, 6#}"
    by (simp add: mkCard_def)
  from countRuns_countPairs_34556 [OF h] h show ?thesis
    by simp
qed

section \<open>Hand scoring\<close>

text \<open>
  Claim C3 says that the hand 5 of clubs, 5 of diamonds, 5 of hearts, 10 of spades with
  the Jack of clubs as starter scores 29 when it is not a crib. The code does not return
  29 for it.
\<close>

theorem handPoints_fives_ten_jack_counterexample:
  "handPoints [mkCard 5 Clubs 0, mkCard 5 Diamonds 1, mkCard 5 Hearts 2, mkCard 10 Spades 3]
     (Some (mkCard 11 Clubs 4)) False \<noteq> Inr 29"
  by code_simp

text \<open>
  Claim C3 as amended: that hand with that starter, not a crib, scores 20: seven
  fifteens (14 points) and three pairs of fives (6 points), no run, no flush and no
  knobs (the Jack is the starter).
\<close>

theorem handPoints_fives_ten_jack:
  "handPoints [mkCard 5 Clubs 0, mkCard 5 Diamonds 1, mkCard 5 Hearts 2, mkCard 10 Spades 3]
     (Some (mkCard 11 Clubs 4)) False = Inr 20"
  by code_simp

text \<open>
  The hand that does score 29: three fives and the Jack of clubs in hand, the five of
  clubs as starter.
\<close>

lemma handPoints_three_fives_jack_starter_five:
  "handPoints [mkCard 5 Diamonds 1, mkCard 5 Hearts 2, mkCard 5 Spades 5, mkCard 11 Clubs 4]
     (Some (mkCard 5 Clubs 0)) False = Inr 29"
  by code_simp

text \<open>
  Claim C6: for a hand of four cards and a starter, the flush points are 0 unless the
  four hand cards share one suit; when they do, they are 5 if the starter has that suit,
  and otherwise 4 for a hand and 0 for a crib.
\<close>

theorem flushPoints_four_cards:
  "flushPoints [c1, c2, c3, c4] (Some st) isCrib =
     (if s c1 = s c2 \<and> s c1 = s c3 \<and> s c1 = s c4
      then (if s st = s c1 then 5 else if isCrib then 0 else 4)
      else 0)"
  by (auto simp: flushPoints_def suit0_def Let_def)

section \<open>Pegging plays: legality, totals and frame\<close>

text \<open>
  Claim C1 says that \<^verbatim>\<open>applyPlay\<close> rejects an illegal play (the total would pass 31, or
  the card is not in the actor's hand) and returns the pegging state unchanged. It does
  not: at count 25 the player's King is applied (the stack grows, the total becomes 35),
  and so is a Queen of hearts that the player does not hold.
\<close>

theorem applyPlay_illegal_counterexample:
  "total pegAt25 + cardValue15 (r (mkCard 13 Spades 3)) > 31
   \<and> total (applyPlay pegAt25 (mkCard 13 Spades 3) P) = 35
   \<and> stack (applyPlay pegAt25 (mkCard 13 Spades 3) P) \<noteq> stack pegAt25
   \<and> pHand (applyPlay pegAt25 (mkCard 13 Spades 3) P) \<noteq> pHand pegAt25
   \<and> mkCard 12 Hearts 7 \<notin> set (pHand pegAt25)
   \<and> stack (applyPlay pegAt25 (mkCard 12 Hearts 7) P) \<noteq> stack pegAt25
   \<and> aiPassed (applyPlay pegAt25 (mkCard 12 Hearts 7) P) \<noteq> aiPassed pegAt25"
  by (simp add: example_defs applyPlay_def cardValue15_def Let_def)

text \<open>
  Claim C1 as amended: \<^verbatim>\<open>applyPlay\<close> does not reject an illegal play. For a card
  whose capped value takes the total above 31, and for a card that is not in the acting
  player's hand, it appends the card to the stack and adds the capped value to the
  total, so the returned state is never the input state; a card that is not in the
  actor's hand leaves both hands as they were.
\<close>

theorem applyPlay_never_rejects:
  assumes "total st + cardValue15 (r c) > 31 \<or> c \<notin> set (if who = P then pHand st else aiHand st)"
  shows "stack (applyPlay st c who) = stack st @ [c]
         \<and> total (applyPlay st c who) = total st + cardValue15 (r c)
         \<and> applyPlay st c who \<noteq> st
         \<and> (c \<notin> set (if who = P then pHand st else aiHand st)
              \<longrightarrow> pHand (applyPlay st c who) = pHand st \<and> aiHand (applyPlay st c who) = aiHand st)"
proof -
  have stk: "stack (applyPlay st c who) = stack st @ [c]"
    by (simp add: applyPlay_def Let_def)
  have tot: "total (applyPlay st c who) = total st + cardValue15 (r c)"
    by (simp add: applyPlay_def Let_def)
  have "stack (applyPlay st c who) \<noteq> stack st"
    using stk by simp
  then have neq: "applyPlay st c who \<noteq> st"
    by auto
  have hands: "c \<notin> set (if who = P then pHand st else aiHand st)
     \<longrightarrow> pHand (applyPlay st c who) = pHand st \<and> aiHand (applyPlay st c who) = aiHand st"
    by (cases who) (auto simp: applyPlay_def Let_def filter_id_conv)
  from stk tot neq hands show ?thesis
    by blast
qed

theorem applyPlay_never_rejects_witness:
  "total pegAt25 + cardValue15 (r (mkCard 13 Spades 3)) > 31
   \<and> stack (applyPlay pegAt25 (mkCard 13 Spades 3) P) = stack pegAt25 @ [mkCard 13 Spades 3]
   \<and> total (applyPlay pegAt25 (mkCard 13 Spades 3) P) = 35
   \<and> applyPlay pegAt25 (mkCard 13 Spades 3) P \<noteq> pegAt25
   \<and> mkCard 12 Hearts 7 \<notin> set (pHand pegAt25)
   \<and> stack (applyPlay pegAt25 (mkCard 12 Hearts 7) P) = stack pegAt25 @ [mkCard 12 Hearts 7]
   \<and> applyPlay pegAt25 (mkCard 12 Hearts 7) P \<noteq> pegAt25
   \<and> pHand (applyPlay pegAt25 (mkCard 12 Hearts 7) P) = pHand pegAt25
   \<and> aiHand (applyPlay pegAt25 (mkCard 12 Hearts 7) P) = aiHand pegAt25"
proof -
  have h: "total pegAt25 + cardValue15 (r (mkCard 13 Spades 3)) > 31"
    by (simp add: example_defs cardValue15_def)
  then have over: "total pegAt25 + cardValue15 (r (mkCard 13 Spades 3)) > 31
      \<or> mkCard 13 Spades 3 \<notin> set (if P = P then pHand pegAt25 else aiHand pegAt25)"
    by blast
  have n: "mkCard 12 Hearts 7 \<notin> set (pHand pegAt25)"
    by (simp add: example_defs)
  then have absent: "total pegAt25 + cardValue15 (r (mkCard 12 Hearts 7)) > 31
      \<or> mkCard 12 Hearts 7 \<notin> set (if P = P then pHand pegAt25 else aiHand pegAt25)"
    by simp
  from applyPlay_never_rejects [OF over] applyPlay_never_rejects [OF absent] h n
  show ?thesis
    by (simp add: example_defs cardValue15_def)
qed

text \<open>
  Claim C5: a card that \<^verbatim>\<open>legalPlays(hand, total)\<close> returns, passed to \<^verbatim>\<open>applyPlay\<close> on
  a state with that running total, gives a new total that is the old total plus the
  card's capped value and is at most 31. (This holds for every total, so also for the
  totals in \<open>[0, 31]\<close> of the claim, and for every hand and actor.)
\<close>

theorem legalPlays_applyPlay_total:
  assumes "c \<in> set (legalPlays hand (total st))"
  shows "total (applyPlay st c who) = total st + cardValue15 (r c)
         \<and> total (applyPlay st c who) \<le> 31"
  using assms by (simp add: legalPlays_def applyPlay_def Let_def)

theorem legalPlays_applyPlay_total_witness:
  "mkCard 3 Clubs 4 \<in> set (legalPlays (pHand pegAt25) (total pegAt25))
   \<and> total (applyPlay pegAt25 (mkCard 3 Clubs 4) P) = 28
   \<and> total (applyPlay pegAt25 (mkCard 3 Clubs 4) P) \<le> 31"
proof -
  have h: "mkCard 3 Clubs 4 \<in> set (legalPlays (pHand pegAt25) (total pegAt25))"
    by (simp add: example_defs legalPlays_def cardValue15_def)
  from legalPlays_applyPlay_total [OF h, of P] h show ?thesis
    by (simp add: example_defs cardValue15_def)
qed

text \<open>
  Claim C10: whatever the state, the card and the actor, \<^verbatim>\<open>applyPlay\<close> returns a state
  whose two passed flags are false; the played card is filtered out of the acting
  player's hand and the other hand is the one of the input; the seen cards and the
  starter are those of the input.
\<close>

theorem applyPlay_frame:
  "pPassed (applyPlay st c who) = False
   \<and> aiPassed (applyPlay st c who) = False
   \<and> pHand (applyPlay st c P) = filter (\<lambda>x. x \<noteq> c) (pHand st)
   \<and> aiHand (applyPlay st c P) = aiHand st
   \<and> aiHand (applyPlay st c AI) = filter (\<lambda>x. x \<noteq> c) (aiHand st)
   \<and> pHand (applyPlay st c AI) = pHand st
   \<and> seen (applyPlay st c who) = seen st
   \<and> starter (applyPlay st c who) = starter st"
  by (simp add: applyPlay_def Let_def)

section \<open>Points of a pegging play: the code against the wording\<close>

lemma sameLoop_takeWhile:
  "k < length seq \<Longrightarrow>
   sameLoop seq k same
     = same + length (takeWhile (\<lambda>x. x = r (seq ! k)) (rev (map r (take k seq))))"
proof (induction seq k same rule: sameLoop.induct)
  case (1 seq k same)
  show ?case
  proof (cases "1 \<le> k \<and> r (seq ! (k - 1)) = r (seq ! k)")
    case True
    then obtain j where k: "k = Suc j"
      by (cases k) auto
    with "1.prems" have j: "j < length seq"
      by simp
    have "sameLoop seq k same = sameLoop seq j (same + 1)"
      using True k by (subst sameLoop.simps) simp
    also have "\<dots> = same + 1
        + length (takeWhile (\<lambda>x. x = r (seq ! j)) (rev (map r (take j seq))))"
      using "1.IH" True k j by simp
    also have "\<dots> = same
        + length (takeWhile (\<lambda>x. x = r (seq ! k)) (rev (map r (take k seq))))"
      using True k j by (simp add: take_Suc_conv_app_nth)
    finally show ?thesis .
  next
    case False
    then have "sameLoop seq k same = same"
      by (subst sameLoop.simps) (simp only: if_False)
    moreover have "takeWhile (\<lambda>x. x = r (seq ! k)) (rev (map r (take k seq))) = []"
    proof (cases k)
      case 0
      then show ?thesis by simp
    next
      case (Suc j)
      with False "1.prems" show ?thesis
        by (simp add: take_Suc_conv_app_nth)
    qed
    ultimately show ?thesis
      by simp
  qed
qed

lemma sameLoop_specTrailingEqual:
  "sameLoop (stk @ [c]) (length (stk @ [c]) - 1) 1 = specTrailingEqual (map r (stk @ [c]))"
proof -
  have "sameLoop (stk @ [c]) (length stk) 1
      = 1 + length (takeWhile (\<lambda>x. x = r c) (rev (map r stk)))"
    using sameLoop_takeWhile [of "length stk" "stk @ [c]" 1] by simp
  then show ?thesis
    by (simp add: specTrailingEqual_def)
qed

lemma isRun_nth: "isRun ys \<longleftrightarrow> (\<forall>i. Suc i < length ys \<longrightarrow> ys ! Suc i = ys ! i + 1)"
proof (induction ys rule: isRun.induct)
  case (1 x y ys)
  have "(\<forall>i. Suc i < length (x # y # ys) \<longrightarrow> (x # y # ys) ! Suc i = (x # y # ys) ! i + 1)
      \<longleftrightarrow> y = x + 1 \<and> (\<forall>i. Suc i < length (y # ys) \<longrightarrow> (y # ys) ! Suc i = (y # ys) ! i + 1)"
    (is "?L \<longleftrightarrow> ?R")
  proof
    assume l: ?L
    from l [rule_format, of 0] have "y = x + 1"
      by simp
    moreover have "(y # ys) ! Suc i = (y # ys) ! i + 1" if "Suc i < length (y # ys)" for i
      using l [rule_format, of "Suc i"] that by simp
    ultimately show ?R
      by blast
  next
    assume rr: ?R
    show ?L
    proof (intro allI impI)
      fix i
      assume "Suc i < length (x # y # ys)"
      with rr show "(x # y # ys) ! Suc i = (x # y # ys) ! i + 1"
        by (cases i) auto
    qed
  qed
  with 1 show ?case
    by simp
qed simp_all

lemma isRun_sorted: "isRun ys \<Longrightarrow> sorted ys"
  by (induction ys rule: isRun.induct) auto

lemma isRun_sort_iff: "isRun (sort xs) \<longleftrightarrow> specRunInSomeOrder xs"
proof
  assume "isRun (sort xs)"
  then have "mset (sort xs) = mset xs
      \<and> (\<forall>i. Suc i < length (sort xs) \<longrightarrow> sort xs ! Suc i = sort xs ! i + 1)"
    by (simp add: isRun_nth)
  then show "specRunInSomeOrder xs"
    unfolding specRunInSomeOrder_def by blast
next
  assume "specRunInSomeOrder xs"
  then obtain ys where ys: "mset ys = mset xs" "isRun ys"
    unfolding specRunInSomeOrder_def isRun_nth by blast
  then have "sort xs = ys"
    by (intro properties_for_sort isRun_sorted)
  with ys show "isRun (sort xs)"
    by simp
qed

lemma tailRunLoop_Max:
  "tailRunLoop seq n =
     (if {l. 3 \<le> l \<and> l \<le> n \<and> isRun (sort (map r (drop (length seq - l) seq)))} = {} then 0
      else int (Max {l. 3 \<le> l \<and> l \<le> n \<and> isRun (sort (map r (drop (length seq - l) seq)))}))"
proof (induction n)
  case 0
  then show ?case by simp
next
  case (Suc n)
  let ?Q = "\<lambda>l. isRun (sort (map r (drop (length seq - l) seq)))"
  let ?S = "\<lambda>m. {l. 3 \<le> l \<and> l \<le> m \<and> ?Q l}"
  show ?case
  proof (cases "Suc n \<ge> 3")
    case False
    then have "?S (Suc n) = {}"
      by auto
    with False show ?thesis
      by simp
  next
    case True
    show ?thesis
    proof (cases "?Q (Suc n)")
      case q: True
      have fin: "finite (?S (Suc n))"
        by simp
      have mem: "Suc n \<in> ?S (Suc n)"
        using True q by simp
      have "Max (?S (Suc n)) = Suc n"
        using fin _ mem by (rule Max_eqI) simp
      moreover have "?S (Suc n) \<noteq> {}"
        using mem by blast
      ultimately show ?thesis
        using True q by simp
    next
      case q: False
      have sets: "?S (Suc n) = ?S n"
        using q by (auto simp: le_Suc_eq)
      have "tailRunLoop seq (Suc n) = tailRunLoop seq n"
        using True q by simp
      then show ?thesis
        unfolding sets by (simp only: Suc)
    qed
  qed
qed

lemma tailRunLoop_spec:
  "tailRunLoop seq (min 7 (length seq)) = specTailRunPoints (map r seq)"
proof -
  have sets: "{l. 3 \<le> l \<and> l \<le> min 7 (length seq)
                  \<and> isRun (sort (map r (drop (length seq - l) seq)))}
      = {l. 3 \<le> l \<and> l \<le> 7 \<and> l \<le> length (map r seq)
            \<and> specRunInSomeOrder (drop (length (map r seq) - l) (map r seq))}"
    by (auto simp: isRun_sort_iff drop_map)
  show ?thesis
    unfolding tailRunLoop_Max specTailRunPoints_def sets by (rule refl)
qed

lemma isPairRunPoints_spec:
  "isPairRunPoints stk c = specPairPoints (map r (stk @ [c])) + specTailRunPoints (map r (stk @ [c]))"
  unfolding isPairRunPoints_def Let_def sameLoop_specTrailingEqual tailRunLoop_spec specPairPoints_def
  by simp

text \<open>
  Claim C4: the points of a play are 2 if the new total is 15, plus 2 if it is 31, plus
  the pair points of the equal ranks at the tail of the stack ending at the new card
  (2, 6, 12 for 2, 3, 4 of them), plus the length of the longest tail of length 3 to 7
  whose ranks are consecutive in some order (only the longest one counts).
\<close>

theorem applyPlay_points_spec:
  "points (applyPlay st c who) = Some (specPlayPoints (stack st) (total st) c)"
  by (simp add: applyPlay_def Let_def specPlayPoints_def isPairRunPoints_spec)

theorem applyPlay_points_spec_witness:
  "specPlayPoints (stack pegAt25) (total pegAt25) (mkCard 6 Hearts 5) = 5
   \<and> points (applyPlay pegAt25 (mkCard 6 Hearts 5) AI) = Some 5"
proof -
  have "points (applyPlay pegAt25 (mkCard 6 Hearts 5) AI) = Some 5"
    by code_simp
  with applyPlay_points_spec [of pegAt25 "mkCard 6 Hearts 5" AI] show ?thesis
    by simp
qed

section \<open>Committing the player's discards\<close>

text \<open>
  Claim C7 says that a discard commit is rejected, with the hand and the crib left as
  they were, when the selection is not of exactly two cards or holds a card that is not
  in the hand. The second half fails: two cards that are not in the six-card hand (by
  rank and suit, and so by identity) are committed to the crib.
\<close>

theorem commitDiscardsSelected_counterexample:
  "length (gPHand gameAtDiscard) = 6
   \<and> \<not> list_ex (cardsEqual (mkCard 5 Diamonds 20)) (gPHand gameAtDiscard)
   \<and> \<not> list_ex (cardsEqual (mkCard 12 Spades 21)) (gPHand gameAtDiscard)
   \<and> crib (commitDiscardsSelected gameAtDiscard
              (Some [mkCard 5 Diamonds 20, mkCard 12 Spades 21]) gameAtDiscard)
       = crib gameAtDiscard @ [mkCard 5 Diamonds 20, mkCard 12 Spades 21]
   \<and> crib (commitDiscardsSelected gameAtDiscard
              (Some [mkCard 5 Diamonds 20, mkCard 12 Spades 21]) gameAtDiscard)
       \<noteq> crib gameAtDiscard
   \<and> phase (commitDiscardsSelected gameAtDiscard
              (Some [mkCard 5 Diamonds 20, mkCard 12 Spades 21]) gameAtDiscard) = Cut"
  by (simp add: gameAtDiscard_def mkCard_def commitDiscardsSelected_def cardsEqual_def)

text \<open>
  Claim C7 as amended: a discard commit with no selection, or with a selection whose
  size is not exactly 2, is rejected with no state change. A selection of exactly two
  cards is committed without any test that the cards are in the hand: they are appended
  to the crib, the hand becomes the render's hand without the cards that equal a
  selected card in rank and suit, and the phase becomes cut.
\<close>

theorem commitDiscardsSelected_guard:
  "commitDiscardsSelected snap None cur = cur
   \<and> (length sel \<noteq> 2 \<longrightarrow> commitDiscardsSelected snap (Some sel) cur = cur)
   \<and> (length sel = 2 \<longrightarrow>
        crib (commitDiscardsSelected snap (Some sel) cur) = crib cur @ sel
        \<and> gPHand (commitDiscardsSelected snap (Some sel) cur)
            = filter (\<lambda>c. \<not> list_ex (\<lambda>x. cardsEqual x c) sel) (gPHand snap)
        \<and> phase (commitDiscardsSelected snap (Some sel) cur) = Cut)"
  by (simp add: commitDiscardsSelected_def cardsEqual_def)

theorem commitDiscardsSelected_guard_witness:
  "length [mkCard 4 Hearts 1] \<noteq> 2
   \<and> commitDiscardsSelected gameAtDiscard (Some [mkCard 4 Hearts 1]) gameAtDiscard = gameAtDiscard
   \<and> length [mkCard 4 Hearts 1, mkCard 9 Diamonds 3] = 2
   \<and> crib (commitDiscardsSelected gameAtDiscard
              (Some [mkCard 4 Hearts 1, mkCard 9 Diamonds 3]) gameAtDiscard)
       = [mkCard 3 Clubs 10, mkCard 6 Hearts 11, mkCard 4 Hearts 1, mkCard 9 Diamonds 3]
   \<and> gPHand (commitDiscardsSelected gameAtDiscard
              (Some [mkCard 4 Hearts 1, mkCard 9 Diamonds 3]) gameAtDiscard)
       = [mkCard 1 Clubs 0, mkCard 7 Spades 2, mkCard 11 Clubs 4, mkCard 13 Hearts 5]"
  using commitDiscardsSelected_guard [of gameAtDiscard gameAtDiscard "[mkCard 4 Hearts 1]"]
    commitDiscardsSelected_guard [of gameAtDiscard gameAtDiscard
      "[mkCard 4 Hearts 1, mkCard 9 Diamonds 3]"]
  by (simp add: gameAtDiscard_def mkCard_def cardsEqual_def)

section \<open>Scores and the end of the game\<close>

text \<open>
  What \<^verbatim>\<open>addScore\<close> does keep: a score that is at most 120 never goes down and stays at
  most 120; an award that reaches 120 sets game over and the winner in the same update;
  and a closure made after game over adds nothing.
\<close>

lemma addScore_monotone_clamped:
  assumes "scores cur w \<le> 120"
  shows "scores cur w \<le> scores (addScore snap who delta cur) w
         \<and> scores (addScore snap who delta cur) w \<le> 120"
  using assms by (auto simp: addScore_def Let_def)

lemma addScore_reaching_120_ends_game:
  assumes "0 < delta" and "\<not> gameOver snap" and "120 \<le> scores cur who + delta"
  shows "scores (addScore snap who delta cur) who = 120
         \<and> gameOver (addScore snap who delta cur)
         \<and> winner (addScore snap who delta cur) = Some who"
  using assms by (simp add: addScore_def Let_def)

lemma addScore_closure_over:
  "gameOver snap \<Longrightarrow> addScore snap who delta cur = cur"
  by (simp add: addScore_def)

text \<open>
  In a closure whose \<^verbatim>\<open>gameOver\<close> is false, a positive award raises a score below 120,
  whether or not the pending state is already game over.
\<close>

lemma addScore_stale_closure_adds:
  assumes "\<not> gameOver snap" and "0 < delta" and "scores cur who < 120"
  shows "scores cur who < scores (addScore snap who delta cur) who"
  using assms by (simp add: addScore_def Let_def)

lemma gameNearEnd_handPoints:
  "handPoints (gPHand gameNearEnd) (gStarter gameNearEnd) False = Inr 2"
  "handPoints (gAIHand gameNearEnd) (gStarter gameNearEnd) False = Inr 6"
  "handPoints (crib gameNearEnd) (gStarter gameNearEnd) True = Inr 0"
  by code_simp+

text \<open>
  Claim C8, its last part (no points are added to either player after game over), at
  the input \<open>gameNearEnd\<close>: the three \<^verbatim>\<open>addScore\<close> calls of \<^verbatim>\<open>endPeggingAndScoreHands\<close> run in one
  closure, in which \<^verbatim>\<open>gameOver\<close> stays false. The first takes the player to 120 and sets
  game over with the player as winner; the second still adds the AI's 6 points, takes
  the AI from 116 to 120 and makes the AI the winner.
\<close>

theorem addScore_after_gameOver_scores:
  "endPeggingAndScoreHands gameNearEnd pegDone gameNearEnd
     = Inr (addScore gameNearEnd AI 0 (addScore gameNearEnd AI 6
              (addScore gameNearEnd P 2 (gameNearEnd\<lparr>phase := Show\<rparr>))))
   \<and> gameOver (addScore gameNearEnd P 2 (gameNearEnd\<lparr>phase := Show\<rparr>)) = True
   \<and> winner (addScore gameNearEnd P 2 (gameNearEnd\<lparr>phase := Show\<rparr>)) = Some P
   \<and> scores (addScore gameNearEnd P 2 (gameNearEnd\<lparr>phase := Show\<rparr>)) AI = 116
   \<and> scores (addScore gameNearEnd AI 0 (addScore gameNearEnd AI 6
              (addScore gameNearEnd P 2 (gameNearEnd\<lparr>phase := Show\<rparr>)))) AI = 120
   \<and> winner (addScore gameNearEnd AI 0 (addScore gameNearEnd AI 6
              (addScore gameNearEnd P 2 (gameNearEnd\<lparr>phase := Show\<rparr>)))) = Some AI"
proof -
  have "endPeggingAndScoreHands gameNearEnd pegDone gameNearEnd
     = Inr (addScore gameNearEnd AI 0 (addScore gameNearEnd AI 6
              (addScore gameNearEnd P 2 (gameNearEnd\<lparr>phase := Show\<rparr>))))"
    by (simp add: endPeggingAndScoreHands_def gameNearEnd_handPoints Let_def)
       (simp add: gameNearEnd_def pegDone_def)
  moreover have "gameOver (addScore gameNearEnd P 2 (gameNearEnd\<lparr>phase := Show\<rparr>)) = True
   \<and> winner (addScore gameNearEnd P 2 (gameNearEnd\<lparr>phase := Show\<rparr>)) = Some P
   \<and> scores (addScore gameNearEnd P 2 (gameNearEnd\<lparr>phase := Show\<rparr>)) AI = 116
   \<and> scores (addScore gameNearEnd AI 0 (addScore gameNearEnd AI 6
              (addScore gameNearEnd P 2 (gameNearEnd\<lparr>phase := Show\<rparr>)))) AI = 120
   \<and> winner (addScore gameNearEnd AI 0 (addScore gameNearEnd AI 6
              (addScore gameNearEnd P 2 (gameNearEnd\<lparr>phase := Show\<rparr>)))) = Some AI"
    by (simp add: addScore_def gameNearEnd_def Let_def)
  ultimately show ?thesis
    by blast
qed

section \<open>Rollouts that reach 31\<close>

text \<open>
  What a pass adds when a play makes 31: the candidate card earns its points and one
  more; a play inside the loop, of the opponent or of the simulated AI, ends the pass
  with its immediate points only.
\<close>

lemma rolloutSim_candidate_31:
  assumes "total st + cardValue15 (r play) = 31"
  shows "rolloutSim st play d = Inr (2 + isPairRunPoints (stack st) play + 1)"
  using assms by (simp add: rolloutSim_def Let_def)

lemma rolloutLoop_opponent_31:
  assumes "filter (\<lambda>c. tot + cardValue15 (r c) \<le> 31) pOptions \<noteq> []"
    and "pChoose tot stk (filter (\<lambda>c. tot + cardValue15 (r c) \<le> 31) pOptions)
           = (Some playC, bestPts)"
    and "tot + cardValue15 (r playC) = 31"
  shows "rolloutLoop P tot stk aiRem pOptions aiPts pPass aiPass lastMover = Inr (aiPts - bestPts)"
  using assms by (subst rolloutLoop.simps) (simp add: Let_def)

lemma rolloutLoop_ai_31:
  assumes "filter (\<lambda>c. tot + cardValue15 (r c) \<le> 31) aiRem \<noteq> []"
    and "aiChoose tot stk (filter (\<lambda>c. tot + cardValue15 (r c) \<le> 31) aiRem)
           = (Some play2, bestPts, bestTotal)"
    and "tot + cardValue15 (r play2) = 31"
  shows "rolloutLoop AI tot stk aiRem pOptions aiPts pPass aiPass lastMover = Inr (aiPts + bestPts)"
  using assms by (subst rolloutLoop.simps) (simp add: Let_def)

text \<open>
  Claim C9 (every play of a rollout that makes exactly 31 ends the pass and earns its
  mover one point beyond the 2 for 31) at three inputs. When the candidate card itself makes 31 the
  pass adds 3. When the sampled opponent answers the King with a Queen and makes 31, the
  pass adds \<open>- 2\<close>, not \<open>- 3\<close>. When the opponent answers with a Three and the simulated
  AI then makes 31 with its Seven, the pass adds 2, not 3.
\<close>

theorem rolloutSim_thirtyOne_points:
  "rolloutSim pegAt21 (mkCard 13 Clubs 3) [mkCard 3 Diamonds 10] = Inr 3
   \<and> rolloutSim pegAt11 (mkCard 13 Clubs 3) [mkCard 12 Diamonds 11] = Inr (- 2)
   \<and> rolloutSim pegAt11 (mkCard 13 Clubs 3) [mkCard 3 Diamonds 10] = Inr 2"
  by code_simp

end
